theory Spec2Isabelle
  imports Main "HOL-Library.Multiset" "HOL-Library.Product_Lexorder" "HOL-Library.List_Lexorder"
begin

section \<open>Strings and the library functions the scripts call\<close>

text \<open>
  A Python \<open>str\<close> is a sequence of Unicode code points, so a string is a list of code
  points (natural numbers), not a list of bytes. A cell of a table read with
  \<open>pd.read_csv(..., dtype=str)\<close> is a string or missing (\<open>NaN\<close>/\<open>None\<close>): \<open>ustring option\<close>.
\<close>

type_synonym ustring = "nat list"

text \<open>
  \<open>str.strip()\<close> without argument removes leading and trailing characters for which
  \<open>str.isspace\<close> holds. The table is CPython's.
\<close>

definition isspace :: "nat \<Rightarrow> bool" where
  "isspace c \<longleftrightarrow>
     c \<in> set [0x9, 0xA, 0xB, 0xC, 0xD, 0x1C, 0x1D, 0x1E, 0x1F, 0x20, 0x85, 0xA0, 0x1680,
              0x2000, 0x2001, 0x2002, 0x2003, 0x2004, 0x2005, 0x2006, 0x2007, 0x2008,
              0x2009, 0x200A, 0x2028, 0x2029, 0x202F, 0x205F, 0x3000]"

definition strip :: "ustring \<Rightarrow> ustring" where
  "strip s = rev (dropWhile isspace (rev (dropWhile isspace s)))"

datatype py_error = TypeError | OverflowError | AttributeError | OSError

text \<open>
  A cell of the numeric column that \<open>pd.to_numeric(_, errors="coerce")\<close> returns, as far
  as the following \<open>astype("Int64")\<close> can tell: not a number (the cell was missing or
  unparseable), an integer of the \<open>int64\<close> range, or a number that \<open>astype("Int64")\<close>
  cannot cast without loss (it has a fractional part, is infinite or lies outside the
  range), together with the error that the cast raises for it.
\<close>

datatype number = NaN | Integral int | Unsafe py_error

text \<open>
  The library functions whose tables and grammars are not part of the repository are
  parameters of the model:
  \<^item> \<open>nfkc\<close> is \<open>unicodedata.normalize("NFKC", _)\<close>;
  \<^item> \<open>re_digit\<close> is the character class \<open>\d\<close> of \<open>re\<close> on a \<open>str\<close> pattern;
  \<^item> \<open>to_numeric\<close> is \<open>pd.to_numeric(_, errors="coerce")\<close> on a whole column. pandas gives
    the column one dtype, so what a cell becomes depends on the other cells: beside a
    missing or unparseable cell the integers are 64-bit floats, and one above \<open>2^53\<close> is
    rounded;
  \<^item> \<open>to_datetime\<close> is \<open>pd.to_datetime(_, errors="coerce")\<close> on one string, \<open>None\<close> for \<open>NaT\<close>;
  \<^item> \<open>datetimelike\<close> says of the results of \<open>to_datetime\<close> for a column whether pandas
    gives the column a datetime dtype, so that its \<open>.dt\<close> accessor exists;
  \<^item> \<open>strftime\<close> is \<open>strftime("%Y-%m-%d")\<close> on a timestamp;
  \<^item> \<open>path_key\<close> is what \<open>sorted\<close> compares of the name of a path: the name itself on
    POSIX, the name in lower case on Windows.
\<close>

record 'ts pylib =
  nfkc :: "ustring \<Rightarrow> ustring"
  re_digit :: "nat \<Rightarrow> bool"
  to_numeric :: "ustring option list \<Rightarrow> number list"
  to_datetime :: "ustring \<Rightarrow> 'ts option"
  datetimelike :: "'ts option list \<Rightarrow> bool"
  strftime :: "'ts \<Rightarrow> ustring"
  path_key :: "ustring \<Rightarrow> ustring"

section \<open>Field normalizers\<close>

text \<open>
  \<open>normalize_str\<close> (both scripts): a missing value stays missing; otherwise strip, then
  NFKC, and the empty string becomes \<open>None\<close>.
\<close>

definition normalize_str :: "'ts pylib \<Rightarrow> ustring option \<Rightarrow> ustring option" where
  "normalize_str L s =
     (case s of
        None \<Rightarrow> None
      | Some v \<Rightarrow> (let t = nfkc L (strip v) in if t = [] then None else Some t))"

text \<open>
  \<open>normalize_phone\<close> (both scripts): \<open>re.sub(r"\D", "", phone)\<close> keeps exactly the characters
  that \<open>\d\<close> matches; the result is returned when it has 10 or 11 characters.
\<close>

definition normalize_phone :: "'ts pylib \<Rightarrow> ustring option \<Rightarrow> ustring option" where
  "normalize_phone L phone =
     (case phone of
        None \<Rightarrow> None
      | Some p \<Rightarrow> (let digits = filter (re_digit L) p
                  in if length digits \<in> {10, 11} then Some digits else None))"

text \<open>
  The timestamp of a cell of \<open>join_date\<close>: \<open>NaT\<close> for a missing cell, else what
  \<open>pd.to_datetime\<close> returns.
\<close>

definition parse_date :: "'ts pylib \<Rightarrow> ustring option \<Rightarrow> 'ts option" where
  "parse_date L d = (case d of None \<Rightarrow> None | Some v \<Rightarrow> to_datetime L v)"

text \<open>
  \<open>normalize_date\<close>: a missing or unparseable date is \<open>NaT\<close> and is written as a missing
  value; a parsed one is rendered by \<open>strftime("%Y-%m-%d")\<close>. \<open>append_batch.py\<close> renders
  each cell in \<open>normalize_date\<close>; \<open>merge_practice1.py\<close> parses each cell and renders the
  column afterwards with \<open>.dt.strftime\<close>, to the same cells when the accessor exists.
\<close>

definition normalize_date :: "'ts pylib \<Rightarrow> ustring option \<Rightarrow> ustring option" where
  "normalize_date L d =
     (case parse_date L d of None \<Rightarrow> None | Some ts \<Rightarrow> Some (strftime L ts))"

section \<open>Tables and \<open>clean\<close>\<close>

text \<open>
  A raw table has the seven columns of the customer schema after renaming, every cell a
  string or missing. A source without a \<open>points\<close> column gets one whose cells are all
  missing (\<open>df["points"] = None\<close>) before anything else happens, so it is a raw table too.
\<close>

record raw_row =
  raw_customer_id :: "ustring option"
  raw_name :: "ustring option"
  raw_email :: "ustring option"
  raw_phone :: "ustring option"
  raw_address :: "ustring option"
  raw_join_date :: "ustring option"
  raw_points :: "ustring option"

text \<open>
  A cleaned row. \<open>customer_id\<close> and \<open>points\<close> are cells of a nullable \<open>Int64\<close> column:
  an integer or \<open><NA>\<close>.
\<close>

record customer =
  customer_id :: "int option"
  name :: "ustring option"
  email :: "ustring option"
  phone :: "ustring option"
  address :: "ustring option"
  join_date :: "ustring option"
  points :: "int option"

text \<open>\<open>Series.fillna(0)\<close> on a cell of the result of \<open>to_numeric\<close>.\<close>

definition fillna0 :: "number \<Rightarrow> number" where
  "fillna0 x = (case x of NaN \<Rightarrow> Integral 0 | _ \<Rightarrow> x)"

text \<open>
  \<open>Series.astype("Int64")\<close> on a numeric column: \<open>NaN\<close> becomes \<open><NA>\<close> and an
  integer-valued number becomes that integer. One number that cannot be cast without loss
  makes the whole call raise; \<open>refused\<close> lists the errors of these numbers, and with
  several of them the error raised is taken to be that of the first.
\<close>

definition refused :: "number list \<Rightarrow> py_error list" where
  "refused col = concat (map (\<lambda>x. case x of Unsafe e \<Rightarrow> [e] | _ \<Rightarrow> []) col)"

definition Int64_cell :: "number \<Rightarrow> int option" where
  "Int64_cell x = (case x of Integral i \<Rightarrow> Some i | _ \<Rightarrow> None)"

definition astype_Int64 :: "number list \<Rightarrow> py_error + int option list" where
  "astype_Int64 col =
     (case refused col of [] \<Rightarrow> Inr (map Int64_cell col) | e # _ \<Rightarrow> Inl e)"

text \<open>The numeric columns that the two casts of \<open>clean\<close> are applied to.\<close>

definition customer_id_numeric :: "'ts pylib \<Rightarrow> raw_row list \<Rightarrow> number list" where
  "customer_id_numeric L df = to_numeric L (map (\<lambda>r. normalize_str L (raw_customer_id r)) df)"

definition points_numeric :: "'ts pylib \<Rightarrow> raw_row list \<Rightarrow> number list" where
  "points_numeric L df = map fillna0 (to_numeric L (map raw_points df))"

text \<open>The table with its cleaned string columns and the two cast columns put in.\<close>

definition cleaned_rows ::
  "'ts pylib \<Rightarrow> raw_row list \<Rightarrow> int option list \<Rightarrow> int option list \<Rightarrow> customer list" where
  "cleaned_rows L df ids pts =
     map (\<lambda>(r, i, p).
            \<lparr> customer_id = i,
              name = normalize_str L (raw_name r),
              email = normalize_str L (raw_email r),
              phone = normalize_phone L (normalize_str L (raw_phone r)),
              address = normalize_str L (raw_address r),
              join_date = normalize_date L (raw_join_date r),
              points = p \<rparr>)
         (zip df (zip ids pts))"

text \<open>
  \<open>clean\<close> of \<open>append_batch.py\<close>: the five string columns go through \<open>normalize_str\<close>;
  \<open>customer_id\<close> is then made numeric and cast to \<open>Int64\<close>; \<open>phone\<close> goes through
  \<open>normalize_phone\<close>, \<open>join_date\<close> cell by cell through \<open>normalize_date\<close>; \<open>points\<close> is made
  numeric, its gaps filled with 0, and cast to \<open>Int64\<close>. Either cast can raise, and then
  \<open>clean\<close> raises.
\<close>

definition clean :: "'ts pylib \<Rightarrow> raw_row list \<Rightarrow> py_error + customer list" where
  "clean L df =
     (case astype_Int64 (customer_id_numeric L df) of
        Inl e \<Rightarrow> Inl e
      | Inr ids \<Rightarrow>
          (case astype_Int64 (points_numeric L df) of
             Inl e \<Rightarrow> Inl e
           | Inr pts \<Rightarrow> Inr (cleaned_rows L df ids pts)))"

text \<open>
  \<open>clean\<close> of \<open>merge_practice1.py\<close> takes the same steps, with the dates between the two
  casts: the column of parsed dates is rendered through its \<open>.dt\<close> accessor, and where
  pandas has not given that column a datetime dtype (an empty table, timestamps of
  different offsets) there is no accessor and \<open>AttributeError\<close> is raised.
\<close>

definition clean_merge_practice1 :: "'ts pylib \<Rightarrow> raw_row list \<Rightarrow> py_error + customer list" where
  "clean_merge_practice1 L df =
     (case astype_Int64 (customer_id_numeric L df) of
        Inl e \<Rightarrow> Inl e
      | Inr ids \<Rightarrow>
          if \<not> datetimelike L (map (\<lambda>r. parse_date L (raw_join_date r)) df)
          then Inl AttributeError
          else
            (case astype_Int64 (points_numeric L df) of
               Inl e \<Rightarrow> Inl e
             | Inr pts \<Rightarrow> Inr (cleaned_rows L df ids pts)))"

section \<open>Merge and duplicate resolution\<close>

text \<open>
  \<open>sort_values(["customer_id", "points"], ascending=[True, False])\<close> orders the rows by
  \<open>customer_id\<close> ascending, then \<open>points\<close> descending, \<open><NA>\<close> last in each column
  (\<open>na_position="last"\<close> is the default), and keeps rows that tie on both columns in their
  previous order: with more than one column pandas sorts through a lexicographic indexer,
  which is stable. \<open>sort_order\<close> is the sort key of a row in the lexicographic order of
  tuples; \<open>sort_key\<close> is a stable sort.
\<close>

type_synonym order_key = "nat \<times> int \<times> nat \<times> int"

definition asc_key :: "int option \<Rightarrow> nat \<times> int" where
  "asc_key v = (case v of None \<Rightarrow> (1, 0) | Some i \<Rightarrow> (0, i))"

definition desc_key :: "int option \<Rightarrow> nat \<times> int" where
  "desc_key v = (case v of None \<Rightarrow> (1, 0) | Some i \<Rightarrow> (0, - i))"

definition sort_order :: "customer \<Rightarrow> order_key" where
  "sort_order r =
     (fst (asc_key (customer_id r)), snd (asc_key (customer_id r)),
      fst (desc_key (points r)), snd (desc_key (points r)))"

definition sort_values :: "customer list \<Rightarrow> customer list" where
  "sort_values df = sort_key sort_order df"

text \<open>
  \<open>drop_duplicates(subset=["customer_id", "email"], keep="first")\<close> scans the rows in
  order and keeps a row when no earlier row has its pair of \<open>customer_id\<close> and \<open>email\<close>;
  a missing value is a key component like any other and equals itself.
\<close>

type_synonym dedup_key = "int option \<times> ustring option"

definition subset_key :: "customer \<Rightarrow> dedup_key" where
  "subset_key r = (customer_id r, email r)"

fun keep_first :: "dedup_key list \<Rightarrow> customer list \<Rightarrow> customer list" where
  "keep_first seen [] = []"
| "keep_first seen (r # rs) =
     (if subset_key r \<in> set seen then keep_first seen rs
      else r # keep_first (subset_key r # seen) rs)"

definition drop_duplicates :: "customer list \<Rightarrow> customer list" where
  "drop_duplicates df = keep_first [] df"

text \<open>
  \<open>merged\<close>: \<open>pd.concat\<close> of the two cleaned tables, \<open>sort_values\<close>, \<open>drop_duplicates\<close>;
  \<open>reset_index(drop=True)\<close> renumbers the rows and changes none.
\<close>

definition merged :: "customer list \<Rightarrow> customer list \<Rightarrow> customer list" where
  "merged existing incoming = drop_duplicates (sort_values (existing @ incoming))"

text \<open>
  What the scripts rely on is that the sort is stable, not which algorithm pandas runs.
  \<open>stable_sort_of f xs ys\<close> says that \<open>ys\<close> is what some stable sort by \<open>f\<close> makes of \<open>xs\<close>:
  a rearrangement of \<open>xs\<close>, ordered by \<open>f\<close>, in which rows of equal key keep their order.
  \<open>merge_run\<close> is one run of the merge with any such sort.
\<close>

definition stable_sort_of :: "('a \<Rightarrow> 'k::linorder) \<Rightarrow> 'a list \<Rightarrow> 'a list \<Rightarrow> bool" where
  "stable_sort_of f xs ys \<longleftrightarrow>
     mset ys = mset xs \<and> sorted (map f ys) \<and>
     (\<forall>k. filter (\<lambda>x. f x = k) ys = filter (\<lambda>x. f x = k) xs)"

definition merge_run :: "customer list \<Rightarrow> customer list \<Rightarrow> customer list \<Rightarrow> bool" where
  "merge_run existing incoming out \<longleftrightarrow>
     (\<exists>ys. stable_sort_of sort_order (existing @ incoming) ys \<and> out = drop_duplicates ys)"

section \<open>The ledger and the incremental run\<close>

text \<open>
  \<open>str.splitlines()\<close>: a line ends at a line boundary character, \<open>\r\n\<close> counts as one
  boundary, and a final boundary opens no further line.
\<close>

definition is_linebreak :: "nat \<Rightarrow> bool" where
  "is_linebreak c \<longleftrightarrow> c \<in> set [0xA, 0xB, 0xC, 0xD, 0x1C, 0x1D, 0x1E, 0x85, 0x2028, 0x2029]"

fun splitlines_from :: "ustring \<Rightarrow> ustring \<Rightarrow> ustring list" where
  "splitlines_from cur [] = (if cur = [] then [] else [cur])"
| "splitlines_from cur [c] = (if is_linebreak c then [cur] else [cur @ [c]])"
| "splitlines_from cur (c # d # cs) =
     (if c = 0xD \<and> d = 0xA then cur # splitlines_from [] cs
      else if is_linebreak c then cur # splitlines_from [] (d # cs)
      else splitlines_from (cur @ [c]) (d # cs))"

definition splitlines :: "ustring \<Rightarrow> ustring list" where
  "splitlines s = splitlines_from [] s"

text \<open>
  \<open>processed_files.txt\<close> as a run finds it: absent (\<open>PROCESSED_LOG.exists()\<close> is false),
  present but not readable as UTF-8 text (\<open>read_text\<close> raises the given error), or present
  with a text.
\<close>

datatype log_file = NoFile | Unreadable py_error | Text ustring

text \<open>
  Step 1 of \<open>main\<close>: \<open>already\<close> is empty when the file does not exist, and otherwise the
  set of the stripped lines of its text.
\<close>

definition already_processed :: "log_file \<Rightarrow> py_error + ustring set" where
  "already_processed f =
     (case f of
        NoFile \<Rightarrow> Inr {}
      | Unreadable e \<Rightarrow> Inl e
      | Text t \<Rightarrow> Inr (set (map strip (splitlines t))))"

text \<open>
  Step 2 of \<open>main\<close>: the \<open>*.csv\<close> files of the folder in sorted order, those whose name
  is in \<open>already\<close> left out. A file is its name and its content. The paths of one folder
  are sorted by what \<open>path_key\<close> makes of their names.
\<close>

definition add_files ::
  "'ts pylib \<Rightarrow> ustring set \<Rightarrow> (ustring \<times> 'a) list \<Rightarrow> (ustring \<times> 'a) list" where
  "add_files L already listing =
     filter (\<lambda>p. fst p \<notin> already) (sort_key (\<lambda>p. path_key L (fst p)) listing)"

text \<open>
  Step 6 of \<open>main\<close>: the log is opened for appending, which creates it when it is absent,
  and each name is written followed by a newline.
\<close>

definition log_append :: "log_file \<Rightarrow> ustring list \<Rightarrow> log_file" where
  "log_append f names =
     Text ((case f of Text t \<Rightarrow> t | _ \<Rightarrow> []) @ concat (map (\<lambda>n. n @ [0xA]) names))"

text \<open>
  What a run finds and leaves: the log, the files of the folder of additions, the master
  file and the output file. The content of a CSV file is the raw table that \<open>pd.read_csv\<close>
  and the renaming of the columns make of it, or \<open>None\<close> when reading it raises.
\<close>

record world =
  processed_log :: log_file
  add_dir :: "(ustring \<times> raw_row list option) list"
  master_csv :: "raw_row list option"
  output_csv :: "customer list option"

definition read_clean :: "'ts pylib \<Rightarrow> raw_row list option \<Rightarrow> py_error + customer list" where
  "read_clean L file = (case file of None \<Rightarrow> Inl OSError | Some df \<Rightarrow> clean L df)"

text \<open>The list comprehension that reads and cleans each new file, and \<open>pd.concat\<close> of the results.\<close>

fun clean_all :: "'ts pylib \<Rightarrow> raw_row list option list \<Rightarrow> py_error + customer list" where
  "clean_all L [] = Inr []"
| "clean_all L (f # fs) =
     (case read_clean L f of
        Inl e \<Rightarrow> Inl e
      | Inr d \<Rightarrow> (case clean_all L fs of Inl e \<Rightarrow> Inl e | Inr ds \<Rightarrow> Inr (d @ ds)))"

text \<open>
  \<open>main\<close> of \<open>append_batch.py\<close>. \<open>Inl\<close> is an exception that ends the run; nothing has
  been written then, since both files are written after the last step that can raise.
  Without a new file the run ends and leaves everything as it was.
\<close>

definition main :: "'ts pylib \<Rightarrow> world \<Rightarrow> py_error + world" where
  "main L w =
     (case already_processed (processed_log w) of
        Inl e \<Rightarrow> Inl e
      | Inr already \<Rightarrow>
          (let new = add_files L already (add_dir w) in
           if new = [] then Inr w
           else
             (case read_clean L (master_csv w) of
                Inl e \<Rightarrow> Inl e
              | Inr master \<Rightarrow>
                  (case clean_all L (map snd new) of
                     Inl e \<Rightarrow> Inl e
                   | Inr add_df \<Rightarrow>
                       Inr (w\<lparr> output_csv := Some (merged master add_df),
                                processed_log := log_append (processed_log w) (map fst new) \<rparr>)))))"

section \<open>The library at concrete inputs\<close>

text \<open>
  The theorems below hold for every library \<open>L\<close>. To run the scripts on concrete inputs a
  library is needed; \<open>py\<close> is Python 3.11 (Unicode 14.0) and pandas on Windows, on the
  inputs that this theory evaluates. Its tables were read off \<open>unicodedata\<close> and \<open>re\<close>.
\<close>

text \<open>
  \<open>\d\<close> on a \<open>str\<close> pattern matches the characters of the Unicode category Nd. They come in
  runs of ten, each starting at a digit zero; \<open>nd_zeros\<close> lists the zeros.
\<close>

definition nd_zeros :: "nat list" where
  "nd_zeros =
     [0x30, 0x660, 0x6F0, 0x7C0, 0x966, 0x9E6, 0xA66, 0xAE6, 0xB66, 0xBE6, 0xC66, 0xCE6,
      0xD66, 0xDE6, 0xE50, 0xED0, 0xF20, 0x1040, 0x1090, 0x17E0, 0x1810, 0x1946, 0x19D0,
      0x1A80, 0x1A90, 0x1B50, 0x1BB0, 0x1C40, 0x1C50, 0xA620, 0xA8D0, 0xA900, 0xA9D0,
      0xA9F0, 0xAA50, 0xABF0, 0xFF10, 0x104A0, 0x10D30, 0x11066, 0x110F0, 0x11136,
      0x111D0, 0x112F0, 0x11450, 0x114D0, 0x11650, 0x116C0, 0x11730, 0x118E0, 0x11950,
      0x11C50, 0x11D50, 0x11DA0, 0x16A60, 0x16AC0, 0x16B50, 0x1D7CE, 0x1D7D8, 0x1D7E2,
      0x1D7EC, 0x1D7F6, 0x1E140, 0x1E2F0, 0x1E950, 0x1FBF0]"

definition unicode_Nd :: "nat \<Rightarrow> bool" where
  "unicode_Nd c \<longleftrightarrow> list_ex (\<lambda>z. z \<le> c \<and> c \<le> z + 9) nd_zeros"

definition is_ascii_digit :: "nat \<Rightarrow> bool" where
  "is_ascii_digit c \<longleftrightarrow> 0x30 \<le> c \<and> c \<le> 0x39"

text \<open>
  NFKC, character by character: the fullwidth forms U+FF01 to U+FF5E fold to ASCII, the
  mathematical digits U+1D7CE to U+1D7FF to the ASCII digits, the no-break and the
  ideographic space to the space, and the spacing marks U+00A8 and U+309B to a space
  followed by the combining mark. Every other character is left as it is, which is what
  NFKC does on ASCII text, on the digits of the other runs of \<open>nd_zeros\<close>, and on a
  combining mark that follows a space. Characters with other foldings, and characters
  that compose with a neighbour, are not evaluated in this theory.
\<close>

definition compat :: "nat \<Rightarrow> ustring" where
  "compat c =
     (if 0xFF01 \<le> c \<and> c \<le> 0xFF5E then [c - 0xFEE0]
      else if 0x1D7CE \<le> c \<and> c \<le> 0x1D7FF then [0x30 + (c - 0x1D7CE) mod 10]
      else if c = 0xA0 \<or> c = 0x3000 then [0x20]
      else if c = 0xA8 then [0x20, 0x308]
      else if c = 0x309B then [0x20, 0x3099]
      else [c])"

definition nfkc_py :: "ustring \<Rightarrow> ustring" where
  "nfkc_py s = concat (map compat s)"

text \<open>
  \<open>pd.to_numeric(_, errors="coerce")\<close> on columns of plain decimal literals: an optional
  sign, then digits, a point and digits, where the digits before the point, or the point
  and the digits after it, may be left out, with at most 15 digits in all. Such a value is
  exact as a 64-bit float, so the dtype that the column gets changes no cell, and the
  column is converted cell by cell. With a fractional part that is not zero the number is
  one for which \<open>astype("Int64")\<close> raises \<open>TypeError\<close>; for \<open>inf\<close> it raises
  \<open>OverflowError\<close>. A missing cell and text that is no number give \<open>NaN\<close>. Literals of
  other shapes (exponents, surrounding blanks, more digits, other spellings of infinity)
  are not evaluated in this theory.
\<close>

definition digits_value :: "ustring \<Rightarrow> int" where
  "digits_value ds = foldl (\<lambda>a c. 10 * a + int (c - 0x30)) 0 ds"

definition unsigned_literal :: "ustring \<Rightarrow> number" where
  "unsigned_literal s =
     (let ip = takeWhile is_ascii_digit s; rest = dropWhile is_ascii_digit s in
      if s = [0x69, 0x6E, 0x66] then Unsafe OverflowError
      else if 15 < length (filter is_ascii_digit s) then NaN
      else if rest = [] then (if ip = [] then NaN else Integral (digits_value ip))
      else if hd rest = 0x2E \<and> list_all is_ascii_digit (tl rest)
              \<and> (ip \<noteq> [] \<or> tl rest \<noteq> [])
        then (if list_all (\<lambda>c. c = 0x30) (tl rest) then Integral (digits_value ip)
              else Unsafe TypeError)
      else NaN)"

definition negate :: "number \<Rightarrow> number" where
  "negate x = (case x of Integral i \<Rightarrow> Integral (- i) | _ \<Rightarrow> x)"

definition cell_numeric_py :: "ustring option \<Rightarrow> number" where
  "cell_numeric_py cell =
     (case cell of
        None \<Rightarrow> NaN
      | Some [] \<Rightarrow> NaN
      | Some (c # cs) \<Rightarrow>
          (if c = 0x2D then negate (unsigned_literal cs)
           else if c = 0x2B then unsigned_literal cs
           else unsigned_literal (c # cs)))"

definition to_numeric_py :: "ustring option list \<Rightarrow> number list" where
  "to_numeric_py col = map cell_numeric_py col"

text \<open>
  \<open>pd.to_datetime(_, errors="coerce")\<close> on dates written \<open>YYYY-MM-DD\<close>: the date when it is
  one of the calendar and lies in the range of a nanosecond \<open>Timestamp\<close>, from 1677-09-22
  to 2262-04-11, and \<open>NaT\<close> otherwise. Other date formats are not evaluated in this
  theory. These timestamps carry no offset, and a column of them and of \<open>NaT\<close> has a
  datetime dtype unless it is empty.
\<close>

type_synonym date = "nat \<times> nat \<times> nat"

definition days_in_month :: "nat \<Rightarrow> nat \<Rightarrow> nat" where
  "days_in_month y m =
     (if m = 2 then (if y mod 4 = 0 \<and> (y mod 400 = 0 \<or> y mod 100 \<noteq> 0) then 29 else 28)
      else if m \<in> {4, 6, 9, 11} then 30 else 31)"

definition to_datetime_py :: "ustring \<Rightarrow> date option" where
  "to_datetime_py s =
     (if length s = 10 \<and> s ! 4 = 0x2D \<and> s ! 7 = 0x2D
         \<and> list_all is_ascii_digit (take 4 s @ take 2 (drop 5 s) @ drop 8 s)
      then
        (let y = nat (digits_value (take 4 s)); m = nat (digits_value (take 2 (drop 5 s)));
             d = nat (digits_value (drop 8 s)) in
         if (1677, 9, 22) \<le> (y, m, d) \<and> (y, m, d) \<le> (2262, 4, 11)
            \<and> 1 \<le> m \<and> m \<le> 12 \<and> 1 \<le> d \<and> d \<le> days_in_month y m
         then Some (y, m, d) else None)
      else None)"

definition datetimelike_py :: "date option list \<Rightarrow> bool" where
  "datetimelike_py col \<longleftrightarrow> col \<noteq> []"

definition two_digits :: "nat \<Rightarrow> ustring" where
  "two_digits n = [0x30 + n div 10 mod 10, 0x30 + n mod 10]"

definition strftime_py :: "date \<Rightarrow> ustring" where
  "strftime_py t =
     (case t of (y, m, d) \<Rightarrow>
        two_digits (y div 100) @ two_digits y @ [0x2D] @ two_digits m @ [0x2D] @ two_digits d)"

text \<open>
  The scripts' paths are Windows paths, which are compared in lower case. \<open>str.lower\<close> on
  names whose cased letters are ASCII letters; other names are not evaluated.
\<close>

definition path_key_py :: "ustring \<Rightarrow> ustring" where
  "path_key_py n = map (\<lambda>c. if 0x41 \<le> c \<and> c \<le> 0x5A then c + 0x20 else c) n"

definition py :: "date pylib" where
  "py = \<lparr> nfkc = nfkc_py, re_digit = unicode_Nd, to_numeric = to_numeric_py,
          to_datetime = to_datetime_py, datetimelike = datetimelike_py,
          strftime = strftime_py, path_key = path_key_py \<rparr>"

text \<open>Concrete rows and files. \<open>ascii\<close> turns a string literal into its code points.\<close>

definition ascii :: "string \<Rightarrow> ustring" where
  "ascii s = map of_char s"

definition raw :: "string \<Rightarrow> string \<Rightarrow> string \<Rightarrow> raw_row" where
  "raw i e p =
     \<lparr> raw_customer_id = Some (ascii i), raw_name = None, raw_email = Some (ascii e),
       raw_phone = None, raw_address = None, raw_join_date = None,
       raw_points = Some (ascii p) \<rparr>"

definition row :: "int \<Rightarrow> string \<Rightarrow> string \<Rightarrow> int \<Rightarrow> customer" where
  "row i n e p =
     \<lparr> customer_id = Some i, name = Some (ascii n), email = Some (ascii e), phone = None,
       address = None, join_date = None, points = Some p \<rparr>"

text \<open>
  Three states of the folders. In \<open>world_seen\<close> the log lists \<open>a.csv\<close>, and the folder of
  additions holds \<open>a.csv\<close> and \<open>b.csv\<close>. In \<open>world_first\<close> there is no log yet, and the
  folder holds one file whose name starts with a blank. \<open>world_again\<close> is what a run on
  \<open>world_first\<close> leaves: the same folders, and the log that the run has written.
\<close>

definition world_seen :: world where
  "world_seen =
     \<lparr> processed_log = Text (ascii ''a.csv'' @ [0xA]),
       add_dir = [(ascii ''b.csv'', Some [raw ''5'' ''a@x.com'' ''50'']),
                  (ascii ''a.csv'', Some [raw ''7'' ''c@x.com'' ''1''])],
       master_csv = Some [raw ''5'' ''a@x.com'' ''10''],
       output_csv = None \<rparr>"

definition world_first :: world where
  "world_first =
     \<lparr> processed_log = NoFile,
       add_dir = [(ascii '' b.csv'', Some [raw ''5'' ''a@x.com'' ''50''])],
       master_csv = Some [raw ''5'' ''a@x.com'' ''10''],
       output_csv = None \<rparr>"

definition world_again :: world where
  "world_again =
     world_first\<lparr> output_csv := Some [(row 5 ''x'' ''a@x.com'' 50)\<lparr>name := None\<rparr>],
                  processed_log := Text (ascii '' b.csv'' @ [0xA]) \<rparr>"

section \<open>Properties of the merge\<close>

subsection \<open>The scan that keeps the first row of each key\<close>

lemma filter_keep_first:
  "filter (\<lambda>r. subset_key r = k) (keep_first seen rs) =
     (if k \<in> set seen then [] else take 1 (filter (\<lambda>r. subset_key r = k) rs))"
  by (induction rs arbitrary: seen) auto

lemma mset_keep_first: "mset (keep_first seen rs) \<subseteq># mset rs"
proof (induction rs arbitrary: seen)
  case Nil
  show ?case by simp
next
  case (Cons r rs)
  show ?case
  proof (cases "subset_key r \<in> set seen")
    case True
    have "mset (keep_first seen rs) \<subseteq># mset rs" by (rule Cons.IH)
    also have "mset rs \<subseteq># mset (r # rs)" by simp
    finally show ?thesis using True by simp
  next
    case False
    then show ?thesis using Cons.IH [of "subset_key r # seen"] by simp
  qed
qed

subsection \<open>The sort key\<close>

lemma asc_key_inj: "asc_key a = asc_key b \<longleftrightarrow> a = b"
  by (auto simp: asc_key_def split: option.splits)

lemma desc_key_inj: "desc_key a = desc_key b \<longleftrightarrow> a = b"
  by (auto simp: desc_key_def split: option.splits)

lemma sort_order_eq:
  "sort_order s = sort_order t \<longleftrightarrow> customer_id s = customer_id t \<and> points s = points t"
proof -
  have "sort_order s = sort_order t \<longleftrightarrow>
          asc_key (customer_id s) = asc_key (customer_id t) \<and>
          desc_key (points s) = desc_key (points t)"
    by (auto simp: sort_order_def prod_eq_iff)
  then show ?thesis by (simp add: asc_key_inj desc_key_inj)
qed

lemma sort_order_le:
  assumes "customer_id s = customer_id t" and "sort_order s \<le> sort_order t"
    and "points t = Some p"
  shows "\<exists>q. points s = Some q \<and> p \<le> q"
  using assms by (auto simp: sort_order_def desc_key_def split: option.splits)

lemma filter_Cons_find: "filter P xs = s # rest \<Longrightarrow> find P xs = Some s"
  by (induction xs) (auto split: if_splits)

lemma find_filter: "find P (filter Q xs) = find (\<lambda>x. Q x \<and> P x) xs"
  by (induction xs) auto

text \<open>
  The head of a stably sorted list has the least key, and is the first of the rows of
  that key in the unsorted list.
\<close>

lemma sorted_group_head:
  fixes f :: "'a \<Rightarrow> 'k::linorder"
  assumes "sort_key f G = s # rest"
  shows "(\<forall>t\<in>set G. f s \<le> f t) \<and> find (\<lambda>y. f y = f s) G = Some s"
proof -
  have "sorted (map f (s # rest))"
    using sorted_sort_key [of f G] assms by simp
  moreover have "set G = set (s # rest)"
    using set_sort [of f G] assms by simp
  ultimately have le: "\<forall>t\<in>set G. f s \<le> f t" by auto
  have "filter (\<lambda>y. f y = f s) G = filter (\<lambda>y. f y = f s) (s # rest)"
    using sort_key_stable [of f "f s" G] assms by simp
  then have "find (\<lambda>y. f y = f s) G = Some s"
    by (intro filter_Cons_find [where rest = "filter (\<lambda>y. f y = f s) rest"]) simp
  with le show ?thesis by simp
qed

lemma keep_best_of_list:
  assumes "r \<in> set xs"
  shows "\<exists>s. filter (\<lambda>t. subset_key t = subset_key r) (drop_duplicates (sort_values xs)) = [s]
           \<and> (\<forall>t\<in>set xs. subset_key t = subset_key r \<longrightarrow>
                 (\<forall>p. points t = Some p \<longrightarrow> (\<exists>q. points s = Some q \<and> p \<le> q)))
           \<and> find (\<lambda>t. subset_key t = subset_key r \<and> points t = points s) xs = Some s"
proof -
  let ?k = "subset_key r"
  let ?G = "filter (\<lambda>t. subset_key t = ?k) xs"
  have "r \<in> set ?G" using assms by simp
  then have "sort_key sort_order ?G \<noteq> []"
    by (metis empty_iff list.set(1) set_sort)
  then obtain s rest where srt: "sort_key sort_order ?G = s # rest"
    by (cases "sort_key sort_order ?G") auto
  have "filter (\<lambda>t. subset_key t = ?k) (drop_duplicates (sort_values xs))
          = take 1 (sort_key sort_order ?G)"
    unfolding drop_duplicates_def sort_values_def filter_keep_first filter_sort
    by simp
  then have surv: "filter (\<lambda>t. subset_key t = ?k) (drop_duplicates (sort_values xs)) = [s]"
    unfolding srt by simp
  from sorted_group_head [OF srt]
  have le: "\<forall>t\<in>set ?G. sort_order s \<le> sort_order t"
    and fnd: "find (\<lambda>y. sort_order y = sort_order s) ?G = Some s" by simp_all
  have "s \<in> set (sort_key sort_order ?G)" unfolding srt by simp
  then have "s \<in> set ?G" by (simp only: set_sort)
  then have ks: "subset_key s = ?k" by simp
  have best: "\<exists>q. points s = Some q \<and> p \<le> q"
    if "t \<in> set xs" "subset_key t = ?k" "points t = Some p" for t p
  proof -
    have "customer_id s = customer_id t"
      using ks that by (simp add: subset_key_def)
    moreover have "sort_order s \<le> sort_order t" using le that by simp
    ultimately show ?thesis using that(3) by (rule sort_order_le)
  qed
  have "find (\<lambda>t. subset_key t = ?k \<and> points t = points s) xs
          = find (\<lambda>t. subset_key t = ?k \<and> sort_order t = sort_order s) xs"
    by (rule find_cong) (use ks in \<open>auto simp: sort_order_eq subset_key_def\<close>)
  also have "\<dots> = Some s" using fnd by (simp add: find_filter)
  finally show ?thesis using surv best by blast
qed

text \<open>
  Claim C1. Take any row \<open>r\<close> of the two inputs. Among the rows of the merged output
  exactly one, \<open>s\<close>, has the \<open>customer_id\<close> and \<open>email\<close> of \<open>r\<close>. No input row of that key
  has more points than \<open>s\<close>. And \<open>s\<close> is the first row, in the order existing then incoming,
  among the input rows of that key with the points of \<open>s\<close>.
\<close>

theorem merged_keeps_best:
  assumes "r \<in> set (existing @ incoming)"
  shows "\<exists>s. filter (\<lambda>t. subset_key t = subset_key r) (merged existing incoming) = [s]
           \<and> (\<forall>t\<in>set (existing @ incoming). subset_key t = subset_key r \<longrightarrow>
                 (\<forall>p. points t = Some p \<longrightarrow> (\<exists>q. points s = Some q \<and> p \<le> q)))
           \<and> find (\<lambda>t. subset_key t = subset_key r \<and> points t = points s)
                 (existing @ incoming) = Some s"
  unfolding merged_def using assms by (rule keep_best_of_list)

theorem merged_keeps_best_witness:
  "row 5 ''A'' ''a@x.com'' 10 \<in> set ([row 5 ''A'' ''a@x.com'' 10] @ [row 5 ''B'' ''a@x.com'' 50])
   \<and> (\<exists>s. filter (\<lambda>t. subset_key t = subset_key (row 5 ''A'' ''a@x.com'' 10))
             (merged [row 5 ''A'' ''a@x.com'' 10] [row 5 ''B'' ''a@x.com'' 50]) = [s]
           \<and> (\<forall>t\<in>set ([row 5 ''A'' ''a@x.com'' 10] @ [row 5 ''B'' ''a@x.com'' 50]).
                 subset_key t = subset_key (row 5 ''A'' ''a@x.com'' 10) \<longrightarrow>
                 (\<forall>p. points t = Some p \<longrightarrow> (\<exists>q. points s = Some q \<and> p \<le> q)))
           \<and> find (\<lambda>t. subset_key t = subset_key (row 5 ''A'' ''a@x.com'' 10)
                          \<and> points t = points s)
                 ([row 5 ''A'' ''a@x.com'' 10] @ [row 5 ''B'' ''a@x.com'' 50]) = Some s)"
proof -
  have h: "row 5 ''A'' ''a@x.com'' 10
             \<in> set ([row 5 ''A'' ''a@x.com'' 10] @ [row 5 ''B'' ''a@x.com'' 50])"
    by simp
  from h merged_keeps_best [OF h] show ?thesis by (rule conjI)
qed

text \<open>
  Scenario B of the specification, computed: of two rows for customer 5 with the same
  email, the one with 50 points is kept.
\<close>

lemma merged_scenario_B:
  "merged [row 5 ''A'' ''a@x.com'' 10] [row 5 ''B'' ''a@x.com'' 50] = [row 5 ''B'' ''a@x.com'' 50]"
  by (simp add: merged_def drop_duplicates_def sort_values_def sort_order_def asc_key_def
      desc_key_def subset_key_def row_def)

text \<open>
  Claim C10. The merged output is a selection of the rows of the two inputs: no row occurs
  in it more often than in the inputs together, so each of its rows is a row of an input,
  and it has at most as many rows as the inputs together.
\<close>

theorem merged_invents_nothing:
  "mset (merged existing incoming) \<subseteq># mset existing + mset incoming
   \<and> set (merged existing incoming) \<subseteq> set existing \<union> set incoming
   \<and> length (merged existing incoming) \<le> length existing + length incoming"
proof -
  have m: "mset (merged existing incoming) \<subseteq># mset existing + mset incoming"
    using mset_keep_first [of "[]" "sort_key sort_order (existing @ incoming)"]
    by (simp add: merged_def drop_duplicates_def sort_values_def)
  from set_mset_mono [OF m]
  have s: "set (merged existing incoming) \<subseteq> set existing \<union> set incoming"
    by simp
  from size_mset_mono [OF m]
  have l: "length (merged existing incoming) \<le> length existing + length incoming"
    by simp
  from m s l show ?thesis by simp
qed

subsection \<open>Any stable sort gives the same output\<close>

lemma stable_sort_of_sort_key: "stable_sort_of f xs (sort_key f xs)"
  by (simp add: stable_sort_of_def sort_key_stable)

lemma stable_sort_of_unique:
  assumes "stable_sort_of f xs ys"
  shows "ys = sort_key f xs"
proof -
  have "sort_key f xs = ys"
  proof (rule properties_for_sort_key)
    show "mset ys = mset xs" using assms by (simp add: stable_sort_of_def)
    show "sorted (map f ys)" using assms by (simp add: stable_sort_of_def)
    show "filter (\<lambda>x. f k = f x) ys = filter (\<lambda>x. f k = f x) xs" for k
    proof -
      have "filter (\<lambda>x. f x = f k) ys = filter (\<lambda>x. f x = f k) xs"
        using assms by (simp add: stable_sort_of_def)
      then show ?thesis by (simp add: eq_commute)
    qed
  qed
  then show ?thesis by simp
qed

lemma merge_run_merged: "merge_run existing incoming (merged existing incoming)"
  unfolding merge_run_def merged_def sort_values_def
  using stable_sort_of_sort_key by blast

text \<open>
  Claim C6. Two runs of the merge on the same two inputs give the same sequence of rows,
  whatever stable sort each run uses. (\<open>merge_run_merged\<close>: there is such a run, and its
  output is \<open>merged\<close>.)
\<close>

theorem merge_deterministic:
  assumes "merge_run existing incoming out1" and "merge_run existing incoming out2"
  shows "out1 = out2"
proof -
  from assms(1) obtain ys1 where
    1: "stable_sort_of sort_order (existing @ incoming) ys1" "out1 = drop_duplicates ys1"
    unfolding merge_run_def by blast
  from assms(2) obtain ys2 where
    2: "stable_sort_of sort_order (existing @ incoming) ys2" "out2 = drop_duplicates ys2"
    unfolding merge_run_def by blast
  have "ys1 = ys2"
    using stable_sort_of_unique [OF 1(1)] stable_sort_of_unique [OF 2(1)] by simp
  then show ?thesis using 1(2) 2(2) by simp
qed

theorem merge_deterministic_witness:
  "merge_run [row 5 ''A'' ''a@x.com'' 10] [row 5 ''B'' ''a@x.com'' 50] [row 5 ''B'' ''a@x.com'' 50]
   \<and> merge_run [row 5 ''A'' ''a@x.com'' 10] [row 5 ''B'' ''a@x.com'' 50]
        (merged [row 5 ''A'' ''a@x.com'' 10] [row 5 ''B'' ''a@x.com'' 50])
   \<and> [row 5 ''B'' ''a@x.com'' 50] = merged [row 5 ''A'' ''a@x.com'' 10] [row 5 ''B'' ''a@x.com'' 50]"
proof -
  let ?a = "row 5 ''A'' ''a@x.com'' 10" and ?b = "row 5 ''B'' ''a@x.com'' 50"
  have s: "stable_sort_of sort_order ([?a] @ [?b]) [?b, ?a]"
    by (simp add: stable_sort_of_def sort_order_def asc_key_def desc_key_def row_def)
  have "[?b] = drop_duplicates [?b, ?a]"
    by (simp add: drop_duplicates_def subset_key_def row_def)
  with s have 1: "merge_run [?a] [?b] [?b]"
    unfolding merge_run_def by blast
  have 2: "merge_run [?a] [?b] (merged [?a] [?b])"
    by (rule merge_run_merged)
  from 1 2 merge_deterministic [OF 1 2] show ?thesis by simp
qed

section \<open>Properties of the normalizers\<close>

text \<open>The definitions that the evaluation of a concrete input unfolds.\<close>

lemmas norm_ev = normalize_str_def normalize_phone_def normalize_date_def parse_date_def
  py_def nfkc_py_def compat_def strip_def isspace_def unicode_Nd_def nd_zeros_def ascii_def

lemmas num_ev = to_numeric_py_def cell_numeric_py_def unsigned_literal_def
  is_ascii_digit_def digits_value_def negate_def fillna0_def astype_Int64_def refused_def
  Int64_cell_def customer_id_numeric_def points_numeric_def cleaned_rows_def

lemmas merge_ev = merged_def drop_duplicates_def sort_values_def sort_order_def asc_key_def
  desc_key_def subset_key_def

lemmas main_ev = main_def already_processed_def add_files_def log_append_def read_clean_def
  splitlines_def is_linebreak_def path_key_py_def

subsection \<open>What \<open>clean\<close> returns\<close>

lemma refused_Nil: "refused col = [] \<longleftrightarrow> (\<forall>e. Unsafe e \<notin> set col)"
proof (induction col)
  case Nil
  show ?case by (simp add: refused_def)
next
  case (Cons x col)
  then show ?case by (cases x) (auto simp: refused_def)
qed

lemma astype_Int64_Inr:
  "astype_Int64 col = Inr xs \<longleftrightarrow> refused col = [] \<and> xs = map Int64_cell col"
  by (auto simp: astype_Int64_def split: list.splits)

lemma astype_Int64_Inl: "astype_Int64 col = Inl e \<longleftrightarrow> (\<exists>es. refused col = e # es)"
  by (auto simp: astype_Int64_def split: list.splits)

text \<open>
  \<open>clean\<close> returns exactly when neither numeric column holds a number that
  \<open>astype("Int64")\<close> refuses, and then it returns the table with the two cast columns put in.
\<close>

lemma clean_Inr:
  "clean L df = Inr out \<longleftrightarrow>
     refused (customer_id_numeric L df) = [] \<and> refused (points_numeric L df) = [] \<and>
     out = cleaned_rows L df (map Int64_cell (customer_id_numeric L df))
                             (map Int64_cell (points_numeric L df))"
  by (auto simp: clean_def astype_Int64_Inr astype_Int64_Inl split: sum.splits)

lemma clean_raises_iff:
  "(\<exists>e. clean L df = Inl e) \<longleftrightarrow>
     (\<exists>e. Unsafe e \<in> set (customer_id_numeric L df) \<or> Unsafe e \<in> set (points_numeric L df))"
proof -
  have "(\<exists>e. clean L df = Inl e) \<longleftrightarrow> \<not> (\<exists>out. clean L df = Inr out)"
    by (cases "clean L df") auto
  then show ?thesis by (auto simp: clean_Inr refused_Nil)
qed

text \<open>
  Where \<open>clean\<close> of \<open>merge_practice1.py\<close> returns, \<open>clean\<close> of \<open>append_batch.py\<close> returns
  the same table; it returns when moreover the date column has its accessor.
\<close>

lemma clean_merge_practice1_Inr:
  "clean_merge_practice1 L df = Inr out \<longleftrightarrow>
     datetimelike L (map (\<lambda>r. parse_date L (raw_join_date r)) df) \<and> clean L df = Inr out"
  by (auto simp: clean_merge_practice1_def clean_def split: sum.splits)

lemma clean_phone:
  assumes "clean L df = Inr out" and "r \<in> set out"
  obtains x where "x \<in> set df" and "phone r = normalize_phone L (normalize_str L (raw_phone x))"
proof -
  from assms obtain ids pts where "r \<in> set (cleaned_rows L df ids pts)"
    by (auto simp: clean_Inr)
  then obtain x i p where "(x, i, p) \<in> set (zip df (zip ids pts))"
    and r: "phone r = normalize_phone L (normalize_str L (raw_phone x))"
    by (auto simp: cleaned_rows_def)
  then have "x \<in> set df" by (auto dest: set_zip_leftD)
  then show thesis using r by (rule that)
qed



subsection \<open>Phone numbers\<close>

lemma normalize_phone_Some:
  assumes "normalize_phone L p = Some d"
  shows "(length d = 10 \<or> length d = 11) \<and> (\<forall>c\<in>set d. re_digit L c)"
  using assms by (auto simp: normalize_phone_def Let_def split: option.splits if_splits)

text \<open>
  Claim C2, as the code has it. What \<open>normalize_phone\<close> returns is missing or a string of
  exactly 10 or 11 characters, each of them a character that \<open>\d\<close> matches; so is the
  \<open>phone\<close> of every row that \<open>clean\<close> returns, in either script. The characters that \<open>\d\<close>
  matches are the decimal digits of all scripts, not only the ASCII ones.
\<close>

theorem phone_digits:
  "(\<forall>d. normalize_phone L p = Some d \<longrightarrow>
        (length d = 10 \<or> length d = 11) \<and> (\<forall>c\<in>set d. re_digit L c))
   \<and> (\<forall>out. clean L df = Inr out \<longrightarrow>
        (\<forall>r\<in>set out. \<forall>d. phone r = Some d \<longrightarrow>
           (length d = 10 \<or> length d = 11) \<and> (\<forall>c\<in>set d. re_digit L c)))
   \<and> (\<forall>out. clean_merge_practice1 L df = Inr out \<longrightarrow>
        (\<forall>r\<in>set out. \<forall>d. phone r = Some d \<longrightarrow>
           (length d = 10 \<or> length d = 11) \<and> (\<forall>c\<in>set d. re_digit L c)))"
proof -
  have field: "\<forall>d. normalize_phone L p = Some d \<longrightarrow>
        (length d = 10 \<or> length d = 11) \<and> (\<forall>c\<in>set d. re_digit L c)"
    using normalize_phone_Some by blast
  have row: "(length d = 10 \<or> length d = 11) \<and> (\<forall>c\<in>set d. re_digit L c)"
    if out: "clean L df = Inr out" and r: "r \<in> set out" and d: "phone r = Some d" for out r d
  proof -
    from out r obtain x :: raw_row
      where "phone r = normalize_phone L (normalize_str L (raw_phone x))"
      by (rule clean_phone)
    with d have "normalize_phone L (normalize_str L (raw_phone x)) = Some d" by simp
    then show ?thesis by (rule normalize_phone_Some)
  qed
  have "(length d = 10 \<or> length d = 11) \<and> (\<forall>c\<in>set d. re_digit L c)"
    if "clean_merge_practice1 L df = Inr out" and "r \<in> set out" and "phone r = Some d"
    for out r d
    using that row by (simp add: clean_merge_practice1_Inr)
  with field row show ?thesis by blast
qed

theorem phone_digits_witness:
  "normalize_phone py (Some (ascii ''090-1234-5678'')) = Some (ascii ''09012345678'')
   \<and> (length (ascii ''09012345678'') = 10 \<or> length (ascii ''09012345678'') = 11)
   \<and> list_all (re_digit py) (ascii ''09012345678'')
   \<and> clean py [(raw ''1'' ''a@x.com'' ''10'')\<lparr>raw_phone := Some (ascii ''090-1234-5678'')\<rparr>]
       = Inr [(row 1 ''x'' ''a@x.com'' 10)\<lparr>name := None, phone := Some (ascii ''09012345678'')\<rparr>]
   \<and> phone ((row 1 ''x'' ''a@x.com'' 10)\<lparr>name := None, phone := Some (ascii ''09012345678'')\<rparr>)
       = Some (ascii ''09012345678'')"
proof -
  have 1: "normalize_phone py (Some (ascii ''090-1234-5678'')) = Some (ascii ''09012345678'')"
    by (simp add: norm_ev)
  have 2: "clean py [(raw ''1'' ''a@x.com'' ''10'')\<lparr>raw_phone := Some (ascii ''090-1234-5678'')\<rparr>]
       = Inr [(row 1 ''x'' ''a@x.com'' 10)\<lparr>name := None, phone := Some (ascii ''09012345678'')\<rparr>]"
    by (simp add: clean_def raw_def row_def norm_ev num_ev)
  have 3: "phone ((row 1 ''x'' ''a@x.com'' 10)\<lparr>name := None, phone := Some (ascii ''09012345678'')\<rparr>)
       = Some (ascii ''09012345678'')"
    by simp
  from 1 phone_digits [of py "Some (ascii ''090-1234-5678'')"
      "[(raw ''1'' ''a@x.com'' ''10'')\<lparr>raw_phone := Some (ascii ''090-1234-5678'')\<rparr>]"]
  have "(length (ascii ''09012345678'') = 10 \<or> length (ascii ''09012345678'') = 11)
        \<and> (\<forall>c\<in>set (ascii ''09012345678''). re_digit py c)"
    by blast
  with 1 2 3 show ?thesis by (auto simp: list_all_iff)
qed

text \<open>
  Claim C2 as stated fails. Ten Arabic-Indic digits, U+0660 to U+0669, are no ASCII
  digits; NFKC leaves them as they are, \<open>\d\<close> matches each of them, and so they come out
  of \<open>normalize_phone\<close> and of \<open>clean\<close> as a phone number.
\<close>

theorem phone_ascii_counterexample:
  "normalize_phone py (Some [0x660, 0x661, 0x662, 0x663, 0x664, 0x665, 0x666, 0x667, 0x668, 0x669])
     = Some [0x660, 0x661, 0x662, 0x663, 0x664, 0x665, 0x666, 0x667, 0x668, 0x669]
   \<and> \<not> list_all is_ascii_digit [0x660, 0x661, 0x662, 0x663, 0x664, 0x665, 0x666, 0x667, 0x668, 0x669]
   \<and> clean py [(raw ''1'' ''a@x.com'' ''10'')
        \<lparr>raw_phone := Some [0x660, 0x661, 0x662, 0x663, 0x664, 0x665, 0x666, 0x667, 0x668, 0x669]\<rparr>]
       = Inr [\<lparr> customer_id = Some 1, name = None, email = Some (ascii ''a@x.com''),
                phone = Some [0x660, 0x661, 0x662, 0x663, 0x664, 0x665, 0x666, 0x667, 0x668, 0x669],
                address = None, join_date = None, points = Some 10 \<rparr>]"
  by (simp add: clean_def raw_def row_def norm_ev num_ev)

text \<open>
  Scenario D of the specification: five digits are no phone number; eleven digits with
  punctuation between them are kept as the digits.
\<close>

lemma phone_scenario_D:
  "normalize_phone py (Some (ascii ''12345'')) = None
   \<and> normalize_phone py (Some (ascii ''090-1234-5678'')) = Some (ascii ''09012345678'')"
  by (simp add: norm_ev)

subsection \<open>Strings\<close>

text \<open>\<open>strip\<close> leaves a string as it is when the string neither starts nor ends with a blank.\<close>

lemma strip_no_blank_ends:
  assumes "\<not> isspace (hd t)" and "\<not> isspace (last t)"
  shows "strip t = t"
proof (cases "t = []")
  case True
  then show ?thesis by (simp add: strip_def)
next
  case False
  from assms(1) have front: "dropWhile isspace t = t"
    by (simp add: dropWhile_eq_self_iff)
  from False assms(2) have "\<not> isspace (hd (rev t))" by (simp add: hd_rev)
  then have "dropWhile isspace (rev t) = rev t"
    by (simp add: dropWhile_eq_self_iff)
  with front show ?thesis by (simp add: strip_def)
qed

text \<open>And only then: stripping a string that starts or ends with a blank shortens it.\<close>

lemma strip_blank_end:
  assumes "t \<noteq> []" and "isspace (hd t) \<or> isspace (last t)"
  shows "length (strip t) < length t"
proof -
  have le: "length (dropWhile isspace xs) \<le> length xs" for xs :: ustring
    by (rule length_dropWhile_le)
  have lt: "length (dropWhile isspace xs) < length xs" if "xs \<noteq> []" "isspace (hd xs)"
    for xs :: ustring
    using that by (cases xs) (auto simp: le_imp_less_Suc length_dropWhile_le)
  show ?thesis
  proof (cases "isspace (hd t)")
    case True
    have "length (strip t) \<le> length (dropWhile isspace t)"
      unfolding strip_def using le [of "rev (dropWhile isspace t)"] by simp
    also have "\<dots> < length t" using assms(1) True by (rule lt)
    finally show ?thesis .
  next
    case False
    with assms have l: "isspace (last t)" by simp
    from False have front: "dropWhile isspace t = t" by (simp add: dropWhile_eq_self_iff)
    have "length (dropWhile isspace (rev t)) < length (rev t)"
      using assms(1) l by (intro lt) (simp_all add: hd_rev)
    then show ?thesis by (simp add: strip_def front)
  qed
qed

text \<open>
  Claim C3, as the code has it. Let NFKC be idempotent, as it is. Then \<open>normalize_str\<close>
  never returns the empty string, what it returns is stable under NFKC, and applying it to
  its own result gives that result again when the result is missing, and when it is a
  string that neither starts nor ends with a blank.
\<close>

theorem normalize_str_twice:
  assumes idem: "\<forall>s. nfkc L (nfkc L s) = nfkc L s"
  shows "normalize_str L x \<noteq> Some []
   \<and> (normalize_str L x = None \<longrightarrow> normalize_str L (normalize_str L x) = normalize_str L x)
   \<and> (\<forall>t. normalize_str L x = Some t \<longrightarrow> \<not> isspace (hd t) \<longrightarrow> \<not> isspace (last t) \<longrightarrow>
          normalize_str L (normalize_str L x) = normalize_str L x)"
proof (intro conjI allI impI)
  show "normalize_str L x \<noteq> Some []"
    by (auto simp: normalize_str_def Let_def split: option.splits)
next
  assume "normalize_str L x = None"
  then show "normalize_str L (normalize_str L x) = normalize_str L x"
    by (simp add: normalize_str_def)
next
  fix t
  assume t: "normalize_str L x = Some t"
    and ends: "\<not> isspace (hd t)" "\<not> isspace (last t)"
  from t obtain v where "t = nfkc L (strip v)" and ne: "t \<noteq> []"
    by (auto simp: normalize_str_def Let_def split: option.splits if_splits)
  then have stable: "nfkc L t = t" using idem by simp
  from ends have "strip t = t" by (rule strip_no_blank_ends)
  with stable ne have "normalize_str L (Some t) = Some t"
    by (simp add: normalize_str_def)
  with t show "normalize_str L (normalize_str L x) = normalize_str L x" by simp
qed

text \<open>The NFKC of \<open>py\<close> is idempotent.\<close>

lemma compat_below: "c < 0xA0 \<Longrightarrow> compat c = [c]"
  by (simp add: compat_def)

lemma compat_marks: "compat 0x308 = [0x308]" "compat 0x3099 = [0x3099]"
  by (simp_all add: compat_def)

lemma compat_compat: "concat (map compat (compat c)) = compat c"
proof -
  consider (fullwidth) "0xFF01 \<le> c \<and> c \<le> 0xFF5E"
    | (digit) "\<not> (0xFF01 \<le> c \<and> c \<le> 0xFF5E)" "0x1D7CE \<le> c \<and> c \<le> 0x1D7FF"
    | (space) "c = 0xA0 \<or> c = 0x3000"
    | (diaeresis) "c = 0xA8"
    | (voiced) "c = 0x309B"
    | (other) "compat c = [c]"
    unfolding compat_def by presburger
  then show ?thesis
  proof cases
    case fullwidth
    then have "compat c = [c - 0xFEE0]" by (simp add: compat_def)
    moreover from fullwidth have "c - 0xFEE0 < 0xA0" by arith
    ultimately show ?thesis by (simp add: compat_below)
  next
    case digit
    then have "compat c = [0x30 + (c - 0x1D7CE) mod 10]" by (simp add: compat_def)
    moreover have "0x30 + (c - 0x1D7CE) mod 10 < 0xA0" by arith
    ultimately show ?thesis by (simp only: list.map concat.simps append_Nil2 compat_below)
  next
    case space
    then have "compat c = [0x20]" by (auto simp: compat_def)
    then show ?thesis by (simp add: compat_below)
  next
    case diaeresis
    then have "compat c = [0x20, 0x308]" by (simp add: compat_def)
    then show ?thesis by (simp add: compat_below compat_marks)
  next
    case voiced
    then have "compat c = [0x20, 0x3099]" by (simp add: compat_def)
    then show ?thesis by (simp add: compat_below compat_marks)
  next
    case other
    then show ?thesis by simp
  qed
qed

lemma nfkc_py_idem: "nfkc_py (nfkc_py s) = nfkc_py s"
  by (induction s) (simp_all add: nfkc_py_def compat_compat)

text \<open>
  An ideographic space on either side of \<open>Tanaka\<close> in fullwidth letters: the spaces are
  stripped, the letters folded, and a second application changes nothing.
\<close>

theorem normalize_str_twice_witness:
  "(\<forall>s. nfkc py (nfkc py s) = nfkc py s)
   \<and> normalize_str py (Some [0x3000, 0xFF34, 0xFF41, 0xFF4E, 0xFF41, 0xFF4B, 0xFF41, 0x3000])
       = Some (ascii ''Tanaka'')
   \<and> \<not> isspace (hd (ascii ''Tanaka'')) \<and> \<not> isspace (last (ascii ''Tanaka''))
   \<and> normalize_str py
         (normalize_str py (Some [0x3000, 0xFF34, 0xFF41, 0xFF4E, 0xFF41, 0xFF4B, 0xFF41, 0x3000]))
       = normalize_str py (Some [0x3000, 0xFF34, 0xFF41, 0xFF4E, 0xFF41, 0xFF4B, 0xFF41, 0x3000])
   \<and> normalize_str py None = None
   \<and> normalize_str py (normalize_str py None) = normalize_str py None"
proof -
  have 0: "\<forall>s. nfkc py (nfkc py s) = nfkc py s"
    by (simp add: py_def nfkc_py_idem)
  have 1: "normalize_str py (Some [0x3000, 0xFF34, 0xFF41, 0xFF4E, 0xFF41, 0xFF4B, 0xFF41, 0x3000])
       = Some (ascii ''Tanaka'')"
    by (simp add: norm_ev)
  have 2: "\<not> isspace (hd (ascii ''Tanaka''))" by (simp add: norm_ev)
  have 3: "\<not> isspace (last (ascii ''Tanaka''))" by (simp add: norm_ev)
  have 4: "normalize_str py None = None" by (simp add: normalize_str_def)
  from 0 1 2 3 4
    normalize_str_twice [OF 0, of "Some [0x3000, 0xFF34, 0xFF41, 0xFF4E, 0xFF41, 0xFF4B, 0xFF41, 0x3000]"]
    normalize_str_twice [OF 0, of None]
  show ?thesis by blast
qed

text \<open>
  Claim C3 as stated fails, because the blanks are stripped before NFKC and not after.
  The voiced sound mark U+309B is no blank, and NFKC folds it to a space followed by the
  combining mark U+3099. The first application returns these two characters; the second
  strips the space.
\<close>

theorem normalize_str_idempotent_counterexample:
  "normalize_str py (Some [0x309B]) = Some [0x20, 0x3099]
   \<and> normalize_str py (normalize_str py (Some [0x309B])) = Some [0x3099]"
  by (simp add: norm_ev)

subsection \<open>Numbers\<close>

text \<open>
  Claim C4 fails on the code. A \<open>customer_id\<close> or a \<open>points\<close> value that is a number with
  a fractional part, such as \<open>1.5\<close>, is not made missing by \<open>errors="coerce"\<close>, and the
  cast to \<open>Int64\<close> raises \<open>TypeError\<close>: \<open>clean\<close> returns no table, in either script.
  (\<open>clean_raises_iff\<close> says when exactly.)
\<close>

theorem clean_raises_on_fraction:
  "clean py [raw ''1.5'' ''a@x.com'' ''10''] = Inl TypeError
   \<and> clean py [raw ''1'' ''a@x.com'' ''1.5''] = Inl TypeError
   \<and> clean_merge_practice1 py [raw ''1.5'' ''a@x.com'' ''10''] = Inl TypeError
   \<and> clean_merge_practice1 py [raw ''1'' ''a@x.com'' ''1.5''] = Inl TypeError"
  by (simp add: clean_def clean_merge_practice1_def datetimelike_py_def raw_def norm_ev num_ev)

text \<open>
  More inputs on which \<open>clean\<close> raises: an infinite number in a numeric column, and in
  \<open>merge_practice1.py\<close> a table without rows, whose date column has no \<open>.dt\<close> accessor.
  \<open>append_batch.py\<close> returns the empty table for the table without rows.
\<close>

lemma clean_raises_more:
  "clean py [raw ''inf'' ''a@x.com'' ''10''] = Inl OverflowError
   \<and> clean_merge_practice1 py [] = Inl AttributeError
   \<and> clean py [] = Inr []"
  by (simp add: clean_def clean_merge_practice1_def datetimelike_py_def raw_def norm_ev num_ev)

text \<open>
  The numbers of \<open>py\<close> on a column: integers with or without a sign, with leading zeros or
  a fractional part of zeros, numbers that \<open>astype("Int64")\<close> refuses, and cells that are
  no number.
\<close>

lemma to_numeric_py_column:
  "to_numeric py (map (\<lambda>s. Some (ascii s))
       [''10'', ''-5'', ''+7'', ''0012'', ''1.0'', ''5.'', ''1.5'', ''.5'', ''inf'', ''-inf'',
        ''abc'', ''1.2.3'', ''-'', ''.'', []] @ [None])
   = [Integral 10, Integral (- 5), Integral 7, Integral 12, Integral 1, Integral 5,
      Unsafe TypeError, Unsafe TypeError, Unsafe OverflowError, Unsafe OverflowError,
      NaN, NaN, NaN, NaN, NaN, NaN]"
  by (simp add: norm_ev num_ev)

text \<open>
  The dates of \<open>py\<close> at the ends of the range of \<open>Timestamp\<close>, and a day that no calendar
  has.
\<close>

lemma to_datetime_py_range:
  "map (\<lambda>s. to_datetime py (ascii s))
       [''1677-09-21'', ''1677-09-22'', ''1677-12-31'', ''2023-02-29'', ''2024-02-29'',
        ''2262-04-11'', ''2262-04-12'', ''2023/01/05'']
   = [None, Some (1677, 9, 22), Some (1677, 12, 31), None, Some (2024, 2, 29),
      Some (2262, 4, 11), None, None]"
  by (simp add: norm_ev num_ev to_datetime_py_def days_in_month_def)






text \<open>
  Scenario A of the specification: a row of a source without a \<open>points\<close> column, with
  blanks around the name and hyphens in the phone number.
\<close>

lemma clean_scenario_A:
  "clean py [\<lparr> raw_customer_id = Some (ascii ''1''), raw_name = Some (ascii '' Tanaka ''),
               raw_email = None, raw_phone = Some (ascii ''090-1234-5678''),
               raw_address = None, raw_join_date = Some (ascii ''2023-04-01''),
               raw_points = None \<rparr>]
     = Inr [\<lparr> customer_id = Some 1, name = Some (ascii ''Tanaka''), email = None,
              phone = Some (ascii ''09012345678''), address = None,
              join_date = Some (ascii ''2023-04-01''), points = Some 0 \<rparr>]"
  by (simp add: clean_def norm_ev num_ev to_datetime_py_def strftime_py_def two_digits_def
      days_in_month_def)


section \<open>Properties of the ledger and of the incremental run\<close>

subsection \<open>What a run that returns has done\<close>

lemma main_Inr:
  assumes "main L w = Inr w'" and "already_processed (processed_log w) = Inr A"
    and "add_files L A (add_dir w) \<noteq> []"
  shows "\<exists>master add_df.
           read_clean L (master_csv w) = Inr master
           \<and> clean_all L (map snd (add_files L A (add_dir w))) = Inr add_df
           \<and> w' = w\<lparr> output_csv := Some (merged master add_df),
                      processed_log := log_append (processed_log w)
                                         (map fst (add_files L A (add_dir w))) \<rparr>"
  using assms by (auto simp: main_def Let_def split: sum.splits)

lemma main_Inr_nothing_new:
  assumes "main L w = Inr w'" and "already_processed (processed_log w) = Inr A"
    and "add_files L A (add_dir w) = []"
  shows "w' = w"
  using assms by (auto simp: main_def Let_def split: sum.splits)

subsection \<open>The new files\<close>

text \<open>
  The files that a run takes are the files of the folder whose names are not in the set
  of names as it was read from the log, each as often as the folder lists it, in the
  sorted order of the paths: they are what is left of the sorted listing when these names
  are taken out. And when a run with new files returns, what it has merged with the
  master table is the cleaned content of exactly these files.
\<close>

lemma add_files_new_only:
  "mset (add_files L already listing) = filter_mset (\<lambda>p. fst p \<notin> already) (mset listing)
   \<and> sorted (map (\<lambda>p. path_key L (fst p)) (add_files L already listing))
   \<and> (\<forall>p\<in>set (add_files L already listing). fst p \<notin> already)
   \<and> add_files L already listing = filter (\<lambda>p. fst p \<notin> already) (add_files L {} listing)
   \<and> (\<forall>w'. main L w = Inr w' \<longrightarrow> already_processed (processed_log w) = Inr already \<longrightarrow>
          add_files L already (add_dir w) \<noteq> [] \<longrightarrow>
          (\<exists>master add_df.
             read_clean L (master_csv w) = Inr master
             \<and> clean_all L (map snd (add_files L already (add_dir w))) = Inr add_df
             \<and> output_csv w' = Some (merged master add_df)))"
proof -
  have 1: "mset (add_files L already listing)
             = filter_mset (\<lambda>p. fst p \<notin> already) (mset listing)"
    by (simp add: add_files_def)
  have 2: "sorted (map (\<lambda>p. path_key L (fst p)) (add_files L already listing))"
    unfolding add_files_def by (rule sorted_filter) simp
  have 3: "\<forall>p\<in>set (add_files L already listing). fst p \<notin> already"
    by (simp add: add_files_def)
  have 4: "add_files L already listing
             = filter (\<lambda>p. fst p \<notin> already) (add_files L {} listing)"
    by (simp add: add_files_def)
  have 5: "\<exists>master add_df.
             read_clean L (master_csv w) = Inr master
             \<and> clean_all L (map snd (add_files L already (add_dir w))) = Inr add_df
             \<and> output_csv w' = Some (merged master add_df)"
    if "main L w = Inr w'" "already_processed (processed_log w) = Inr already"
      "add_files L already (add_dir w) \<noteq> []" for w'
    using main_Inr [OF that] by auto
  from 1 2 3 4 5 show ?thesis by blast
qed

text \<open>
  Scenario C of the specification: the log lists \<open>a.csv\<close>; of the files \<open>b.csv\<close> and
  \<open>a.csv\<close> of the folder the run takes \<open>b.csv\<close> only, merges it with the master table and
  appends its name to the log.
\<close>

lemma ledger_scenario_C:
  "already_processed (processed_log world_seen) = Inr {ascii ''a.csv''}
   \<and> add_files py {ascii ''a.csv''} (add_dir world_seen)
       = [(ascii ''b.csv'', Some [raw ''5'' ''a@x.com'' ''50''])]
   \<and> main py world_seen =
       Inr (world_seen\<lparr> output_csv := Some [(row 5 ''x'' ''a@x.com'' 50)\<lparr>name := None\<rparr>],
                         processed_log := Text (ascii ''a.csv'' @ [0xA] @ ascii ''b.csv'' @ [0xA]) \<rparr>)"
  by (simp add: world_seen_def main_ev clean_def raw_def row_def norm_ev num_ev merge_ev)

text \<open>
  Claim C7 fails on the code. What the run leaves out are the files whose names are in
  the set read from the log, and that set holds the lines of the log stripped. A run on
  \<open>world_first\<close> leaves \<open>world_again\<close>: the log has the line \<open>" b.csv"\<close>, the name of the
  file that was merged. The set read from that log holds \<open>"b.csv"\<close>. So the file
  \<open>" b.csv"\<close>, a candidate whose name is a line of the log, is among the new files of the
  next run, is merged with the master table again, and gets a second line in the log.
\<close>

theorem listed_file_taken_again:
  "main py world_first = Inr world_again
   \<and> processed_log world_again = Text (ascii '' b.csv'' @ [0xA])
   \<and> map fst (add_dir world_again) = [ascii '' b.csv'']
   \<and> ascii '' b.csv'' \<in> set (splitlines (ascii '' b.csv'' @ [0xA]))
   \<and> already_processed (processed_log world_again) = Inr {ascii ''b.csv''}
   \<and> add_files py {ascii ''b.csv''} (add_dir world_again)
       = [(ascii '' b.csv'', Some [raw ''5'' ''a@x.com'' ''50''])]
   \<and> main py world_again =
       Inr (world_again\<lparr> output_csv := Some [(row 5 ''x'' ''a@x.com'' 50)\<lparr>name := None\<rparr>],
                          processed_log :=
                            Text (ascii '' b.csv'' @ [0xA] @ ascii '' b.csv'' @ [0xA]) \<rparr>)"
  by (simp add: world_again_def world_first_def main_ev clean_def raw_def row_def norm_ev
      num_ev merge_ev)

subsection \<open>A log that cannot be read\<close>

text \<open>
  Claim C8, as the code has it. The set of processed names is empty when the log does not
  exist. When the log exists and reading it raises, loading the set raises that error,
  and so does the run: the only case the code guards is the absent file.
\<close>

theorem ledger_absent_is_empty:
  "already_processed NoFile = Inr {}
   \<and> already_processed (Unreadable e) = Inl e
   \<and> main L (w\<lparr>processed_log := Unreadable e\<rparr>) = Inl e"
  by (simp add: main_def already_processed_def)

text \<open>
  Claim C8 as stated fails: with a log that exists and cannot be read, loading the set
  gives an error, not the empty set, and the run fails.
\<close>

theorem ledger_unreadable_counterexample:
  "already_processed (Unreadable OSError) = Inl OSError
   \<and> main py (world_seen\<lparr>processed_log := Unreadable OSError\<rparr>) = Inl OSError"
  by (simp add: main_def already_processed_def)

subsection \<open>The log after a run\<close>

text \<open>
  Claim C9 fails on the code. The names are written to the log as they are and read back
  stripped. The first run on \<open>world_first\<close> succeeds and merges the file named
  \<open>" b.csv"\<close>; the set of processed names was empty before; after the run it holds
  \<open>"b.csv"\<close> and not the name of the file that was merged, so the next run takes the
  file again.
\<close>

theorem ledger_loses_names:
  "main py world_first =
     Inr (world_first\<lparr> output_csv := Some [(row 5 ''x'' ''a@x.com'' 50)\<lparr>name := None\<rparr>],
                        processed_log := Text (ascii '' b.csv'' @ [0xA]) \<rparr>)
   \<and> already_processed (processed_log world_first) = Inr {}
   \<and> already_processed (Text (ascii '' b.csv'' @ [0xA])) = Inr {ascii ''b.csv''}
   \<and> ascii '' b.csv'' \<notin> {ascii ''b.csv''}"
  by (simp add: world_first_def main_ev clean_def raw_def row_def norm_ev num_ev merge_ev)

text \<open>
  The same defect from the other side: a log whose text does not end with a line break,
  as a text editor leaves it. The first name that a run appends continues the last line,
  and the name that was on that line is no longer in the set.
\<close>

lemma ledger_without_final_newline:
  "already_processed (Text (ascii ''a.csv'')) = Inr {ascii ''a.csv''}
   \<and> log_append (Text (ascii ''a.csv'')) [ascii ''b.csv''] = Text (ascii ''a.csvb.csv'' @ [0xA])
   \<and> already_processed (Text (ascii ''a.csvb.csv'' @ [0xA])) = Inr {ascii ''a.csvb.csv''}
   \<and> ascii ''a.csv'' \<notin> {ascii ''a.csvb.csv''}"
  by (simp add: main_ev norm_ev)

text \<open>
  Where the code is right. \<open>splitlines\<close> of a text with one more line appended is
  \<open>splitlines\<close> of the text with that line appended, when the text is empty or ends with a
  line break and the line is not empty and holds no line break.
\<close>

lemma splitlines_from_line:
  assumes "\<forall>c\<in>set s. \<not> is_linebreak c"
  shows "splitlines_from cur (s @ [0xA]) = [cur @ s]"
  using assms
proof (induction s arbitrary: cur)
  case Nil
  show ?case by (simp add: is_linebreak_def)
next
  case (Cons c s)
  obtain d cs where dcs: "s @ [0xA] = d # cs" by (cases "s @ [0xA::nat]") auto
  from Cons.prems have c: "\<not> is_linebreak c" by simp
  then have "c \<noteq> 0xD" by (auto simp: is_linebreak_def)
  then have "splitlines_from cur (c # d # cs) = splitlines_from (cur @ [c]) (d # cs)"
    using c by simp
  also have "\<dots> = [(cur @ [c]) @ s]"
    unfolding dcs [symmetric] using Cons.prems by (intro Cons.IH) simp
  finally show ?case by (simp add: dcs)
qed

lemma splitlines_from_append:
  assumes "t \<noteq> []" and "is_linebreak (last t)" and "u \<noteq> []" and "hd u \<noteq> 0xA"
  shows "splitlines_from cur (t @ u) = splitlines_from cur t @ splitlines_from [] u"
  using assms
proof (induction cur t rule: splitlines_from.induct)
  case (1 cur)
  then show ?case by simp
next
  case (2 cur c)
  from 2 obtain d cs where u: "u = d # cs" "d \<noteq> 0xA" by (cases u) auto
  with 2 show ?case by simp
next
  case (3 cur c d cs)
  show ?case
  proof (cases "cs = []")
    case True
    from 3 obtain e es where u: "u = e # es" "e \<noteq> 0xA" by (cases u) auto
    from 3 True have d: "is_linebreak d" by simp
    show ?thesis using True u d by simp
  next
    case False
    with 3 have l: "is_linebreak (last cs)" by simp
    obtain e es where cs: "cs = e # es" using False by (cases cs) auto
    show ?thesis
      using 3 False l by (simp add: cs)
  qed
qed

lemma splitlines_append_name:
  assumes "t = [] \<or> is_linebreak (last t)" and "n \<noteq> []" and "\<forall>c\<in>set n. \<not> is_linebreak c"
  shows "splitlines (t @ n @ [0xA]) = splitlines t @ [n]"
proof (cases "t = []")
  case True
  then show ?thesis using assms(3) by (simp add: splitlines_def splitlines_from_line)
next
  case False
  with assms(1) have l: "is_linebreak (last t)" by simp
  have "hd n \<noteq> 0xA" using assms(2,3) by (cases n) (auto simp: is_linebreak_def)
  then have "hd (n @ [0xA]) \<noteq> 0xA" using assms(2) by simp
  then have "splitlines_from [] (t @ n @ [0xA])
               = splitlines_from [] t @ splitlines_from [] (n @ [0xA])"
    using False l by (intro splitlines_from_append) simp_all
  then show ?thesis using assms(3) by (simp add: splitlines_def splitlines_from_line)
qed

lemma splitlines_append_names:
  assumes "t = [] \<or> is_linebreak (last t)"
    and "\<forall>n\<in>set names. n \<noteq> [] \<and> (\<forall>c\<in>set n. \<not> is_linebreak c)"
  shows "splitlines (t @ concat (map (\<lambda>n. n @ [0xA]) names)) = splitlines t @ names"
  using assms
proof (induction names arbitrary: t)
  case Nil
  show ?case by simp
next
  case (Cons n ns)
  have "is_linebreak (last (t @ n @ [0xA]))" by (simp add: is_linebreak_def)
  then have "splitlines ((t @ n @ [0xA]) @ concat (map (\<lambda>n. n @ [0xA]) ns))
               = splitlines (t @ n @ [0xA]) @ ns"
    using Cons.prems(2) by (intro Cons.IH) simp_all
  also have "splitlines (t @ n @ [0xA]) = splitlines t @ [n]"
    using Cons.prems by (intro splitlines_append_name) simp_all
  finally show ?case by simp
qed

text \<open>
  After a run that returns, the set of processed names is the set before the run together
  with the names of the files the run has taken, provided that the log was absent, empty
  or ended with a line break, and that no file of the folder has a name that is empty,
  holds a line break, or starts or ends with a blank.
\<close>

lemma ledger_after_run:
  assumes run: "main L w = Inr w'"
    and pre: "already_processed (processed_log w) = Inr A"
    and log: "processed_log w = NoFile
              \<or> (\<exists>t. processed_log w = Text t \<and> (t = [] \<or> is_linebreak (last t)))"
    and names: "\<forall>p\<in>set (add_dir w).
                  fst p \<noteq> [] \<and> (\<forall>c\<in>set (fst p). \<not> is_linebreak c) \<and> strip (fst p) = fst p"
  shows "already_processed (processed_log w') = Inr (A \<union> fst ` set (add_files L A (add_dir w)))"
proof (cases "add_files L A (add_dir w) = []")
  case True
  with run pre have "w' = w" by (rule main_Inr_nothing_new)
  with pre True show ?thesis by simp
next
  case False
  let ?new = "map fst (add_files L A (add_dir w))"
  let ?t = "case processed_log w of Text t \<Rightarrow> t | _ \<Rightarrow> []"
  from main_Inr [OF run pre False]
  have w': "processed_log w' = log_append (processed_log w) ?new" by auto
  have t: "?t = [] \<or> is_linebreak (last ?t)" using log by auto
  have A: "A = set (map strip (splitlines ?t))"
    using pre log by (auto simp: already_processed_def splitlines_def)
  have sub: "set (add_files L A (add_dir w)) \<subseteq> set (add_dir w)"
    by (auto simp: add_files_def)
  with names have n: "\<forall>n\<in>set ?new. n \<noteq> [] \<and> (\<forall>c\<in>set n. \<not> is_linebreak c)"
    and s: "\<forall>n\<in>set ?new. strip n = n" by auto
  have "splitlines (?t @ concat (map (\<lambda>n. n @ [0xA]) ?new)) = splitlines ?t @ ?new"
    using t n by (rule splitlines_append_names)
  then have "already_processed (log_append (processed_log w) ?new)
               = Inr (set (map strip (splitlines ?t)) \<union> set (map strip ?new))"
    by (simp add: already_processed_def log_append_def)
  also have "map strip ?new = ?new" using s by (simp add: map_idI)
  finally show ?thesis using w' A by simp
qed

end
